theory Spec2Isabelle
  imports Main "HOL-Library.Sublist"
begin


section \<open>The environment: path names, the file system, archives and images\<close>

text \<open>
  The program acts on the world through the Python standard library. Each library function
  it calls is modelled by its documented behaviour on POSIX:
  \<^item> path names are strings; \<open>os.path.join\<close>, \<open>os.path.dirname\<close> and
    \<open>os.path.commonpath\<close> are pure string functions (\<open>commonpath\<close> drops empty and
    \<open>.\<close> segments, keeps \<open>..\<close> segments, and raises \<open>ValueError\<close> on a mix of absolute
    and relative paths);
  \<^item> the file system is a tree of directories and regular files without symbolic links.
    A path name is walked segment by segment from the root (a relative name after the
    segments of the working directory): every step is taken from an existing directory,
    \<open>.\<close> stays and \<open>..\<close> steps to the parent, so that \<open>x/..\<close> fails when \<open>x\<close> is missing or
    a regular file. \<open>os.makedirs\<close> is the same walk creating the directories it misses;
  \<^item> a raised exception is the left injection of a sum, returned together with the file
    system as it is at that moment, because writes made before the exception persist;
  \<^item> the members of an archive (\<open>tarfile\<close>), the decoding of an image, the conversion of
    its pixels and the JPEG encoder (\<open>PIL\<close>) are parameters of the model, collected in a
    record.
  Progress bars (\<open>tqdm\<close>), output to the terminal and the diagnostic \<open>logging\<close> module
  (which appends to its own file \<open>imagenet_downloader.log\<close>) are left out.
\<close>

type_synonym bytes = "char list"

datatype exn =
    FileExistsError
  | FileNotFoundError
  | NotADirectoryError
  | IsADirectoryError
  | ValueError
  | ReadError
  | UnidentifiedImageError
  | OSError
  | RequestException string

text \<open>\<^verbatim>\<open>str(e)\<close>, the text that goes into the failure log and the result.\<close>

fun str_exn :: "exn \<Rightarrow> string" where
  "str_exn FileExistsError = ''File exists''"
| "str_exn FileNotFoundError = ''No such file or directory''"
| "str_exn NotADirectoryError = ''Not a directory''"
| "str_exn IsADirectoryError = ''Is a directory''"
| "str_exn ValueError = ''Cannot mix absolute and relative paths''"
| "str_exn ReadError = ''file could not be opened successfully''"
| "str_exn UnidentifiedImageError = ''cannot identify image file''"
| "str_exn OSError = ''Invalid argument''"
| "str_exn (RequestException msg) = msg"

subsection \<open>Path names (posixpath)\<close>

definition startswith :: "string \<Rightarrow> string \<Rightarrow> bool" where
  "startswith s p \<longleftrightarrow> prefix p s"

definition endswith :: "string \<Rightarrow> string \<Rightarrow> bool" where
  "endswith s p \<longleftrightarrow> suffix p s"

text \<open>\<^verbatim>\<open>os.path.join(a, b)\<close>: an absolute \<open>b\<close> discards \<open>a\<close>.\<close>

definition os_path_join :: "string \<Rightarrow> string \<Rightarrow> string" where
  "os_path_join a b =
     (if startswith b ''/'' \<or> a = [] then b
      else if endswith a ''/'' then a @ b
      else a @ ''/'' @ b)"

text \<open>\<^verbatim>\<open>s.split('/')\<close>\<close>

fun str_split :: "string \<Rightarrow> string list" where
  "str_split [] = [[]]"
| "str_split (c # cs) =
     (if c = CHR ''/'' then [] # str_split cs
      else (case str_split cs of [] \<Rightarrow> [[c]] | x # xs \<Rightarrow> (c # x) # xs))"

text \<open>\<^verbatim>\<open>'/'.join(parts)\<close>\<close>

fun join_sep :: "string list \<Rightarrow> string" where
  "join_sep [] = []"
| "join_sep [x] = x"
| "join_sep (x # y # ys) = x @ ''/'' @ join_sep (y # ys)"

text \<open>
  \<^verbatim>\<open>os.path.dirname(p)\<close>: everything up to the last slash, with trailing slashes
  stripped unless it consists of slashes only.
\<close>

definition os_path_dirname :: "string \<Rightarrow> string" where
  "os_path_dirname p =
     (let head = rev (dropWhile (\<lambda>c. c \<noteq> CHR ''/'') (rev p))
      in if head \<noteq> [] \<and> \<not> list_all (\<lambda>c. c = CHR ''/'') head
         then rev (dropWhile (\<lambda>c. c = CHR ''/'') (rev head))
         else head)"

text \<open>The segments \<open>commonpath\<close> compares: \<^verbatim>\<open>[c for c in p.split('/') if c and c != '.']\<close>.\<close>

definition path_parts :: "string \<Rightarrow> string list" where
  "path_parts p = filter (\<lambda>c. c \<noteq> [] \<and> c \<noteq> ''.'') (str_split p)"

text \<open>\<^verbatim>\<open>os.path.commonpath([p, q])\<close>\<close>

definition os_path_commonpath :: "string \<Rightarrow> string \<Rightarrow> exn + string" where
  "os_path_commonpath p q =
     (if startswith p ''/'' \<noteq> startswith q ''/'' then Inl ValueError
      else Inr ((if startswith p ''/'' then ''/'' else [])
                @ join_sep (longest_common_prefix (path_parts p) (path_parts q))))"

subsection \<open>The file system\<close>

datatype node = File bytes | Dir

type_synonym path = "string list"

type_synonym filesystem = "path \<Rightarrow> node option"

text \<open>The root directory always exists.\<close>

definition node_at :: "filesystem \<Rightarrow> path \<Rightarrow> node option" where
  "node_at fs loc = (if loc = [] then Some Dir else fs loc)"

text \<open>
  The segments of a path name from the root, for a process whose working directory is
  \<open>wd\<close>. Empty segments (repeated slashes) are dropped; a trailing slash is kept apart.
\<close>

definition segments :: "string \<Rightarrow> string \<Rightarrow> string list" where
  "segments wd p =
     filter (\<lambda>c. c \<noteq> []) (str_split (if startswith p ''/'' then p else wd @ ''/'' @ p))"

definition trailing_sep :: "string \<Rightarrow> bool" where
  "trailing_sep p \<longleftrightarrow> endswith p ''/''"

text \<open>One step of the walk: where a segment leads from a location.\<close>

definition step :: "path \<Rightarrow> string \<Rightarrow> path" where
  "step at c =
     (if c = ''.'' then at
      else if c = ''..'' then butlast at
      else at @ [c])"

text \<open>
  The walk of the kernel: a step can only be taken from an existing directory. The result
  is the location the last segment leads to, which need not exist.
\<close>

fun locate_from :: "filesystem \<Rightarrow> path \<Rightarrow> string list \<Rightarrow> exn + path" where
  "locate_from fs at [] = Inr at"
| "locate_from fs at (c # cs) =
     (case node_at fs at of
        None \<Rightarrow> Inl FileNotFoundError
      | Some (File _) \<Rightarrow> Inl NotADirectoryError
      | Some Dir \<Rightarrow> locate_from fs (step at c) cs)"

text \<open>
  The location a path name leads to when no step fails. It is what \<open>locate_from\<close> returns
  whenever it returns a location.
\<close>

definition resolve :: "string \<Rightarrow> string \<Rightarrow> path" where
  "resolve wd p = foldl step [] (segments wd p)"

text \<open>
  Looking up an existing node (\<open>stat\<close>): the walk, then the node must exist, and be a
  directory if the name ends with a slash.
\<close>

definition locate :: "string \<Rightarrow> string \<Rightarrow> filesystem \<Rightarrow> exn + path" where
  "locate wd p fs =
     (if p = [] then Inl FileNotFoundError
      else (case locate_from fs [] (segments wd p) of
              Inl err \<Rightarrow> Inl err
            | Inr loc \<Rightarrow>
                (case node_at fs loc of
                   None \<Rightarrow> Inl FileNotFoundError
                 | Some (File _) \<Rightarrow> if trailing_sep p then Inl NotADirectoryError else Inr loc
                 | Some Dir \<Rightarrow> Inr loc)))"

text \<open>\<^verbatim>\<open>os.path.exists(p)\<close>\<close>

definition os_path_exists :: "string \<Rightarrow> string \<Rightarrow> filesystem \<Rightarrow> bool" where
  "os_path_exists wd p fs = (case locate wd p fs of Inl _ \<Rightarrow> False | Inr _ \<Rightarrow> True)"

text \<open>
  \<^verbatim>\<open>os.makedirs(p, exist_ok=True)\<close>: the walk, creating each directory it does not find.
  A regular file on the way raises \<open>NotADirectoryError\<close>, a regular file at the end
  \<open>FileExistsError\<close>; the directories created before that stay.
\<close>

fun mkdirs_from :: "path \<Rightarrow> string list \<Rightarrow> filesystem \<Rightarrow> (exn + unit) \<times> filesystem" where
  "mkdirs_from at [] fs =
     (case node_at fs at of
        None \<Rightarrow> (Inr (), fs(at \<mapsto> Dir))
      | Some Dir \<Rightarrow> (Inr (), fs)
      | Some (File _) \<Rightarrow> (Inl FileExistsError, fs))"
| "mkdirs_from at (c # cs) fs =
     (case node_at fs at of
        None \<Rightarrow> mkdirs_from (step at c) cs (fs(at \<mapsto> Dir))
      | Some Dir \<Rightarrow> mkdirs_from (step at c) cs fs
      | Some (File _) \<Rightarrow> (Inl NotADirectoryError, fs))"

definition os_makedirs :: "string \<Rightarrow> string \<Rightarrow> filesystem \<Rightarrow> (exn + unit) \<times> filesystem" where
  "os_makedirs wd p fs =
     (if p = [] then (Inl FileNotFoundError, fs) else mkdirs_from [] (segments wd p) fs)"

text \<open>
  Opening a path for writing (\<^verbatim>\<open>open(p, 'wb')\<close>, \<^verbatim>\<open>open(p, 'a')\<close>): the walk, then the
  target must not be a directory, nor the name end with a slash. The result is the
  location of the file, which is created in the directory the last step was taken from.
\<close>

definition open_w :: "string \<Rightarrow> string \<Rightarrow> filesystem \<Rightarrow> exn + path" where
  "open_w wd p fs =
     (if p = [] then Inl FileNotFoundError
      else (case locate_from fs [] (segments wd p) of
              Inl err \<Rightarrow> Inl err
            | Inr loc \<Rightarrow>
                if trailing_sep p then Inl IsADirectoryError
                else (case node_at fs loc of
                        Some Dir \<Rightarrow> Inl IsADirectoryError
                      | Some (File _) \<Rightarrow> Inr loc
                      | None \<Rightarrow>
                          (case node_at fs (butlast loc) of
                             Some Dir \<Rightarrow> Inr loc
                           | _ \<Rightarrow> Inl FileNotFoundError))))"

text \<open>\<^verbatim>\<open>open(p, 'wb')\<close> followed by writing \<open>content\<close>: an existing file is replaced.\<close>

definition write_file :: "string \<Rightarrow> string \<Rightarrow> bytes \<Rightarrow> filesystem \<Rightarrow> (exn + unit) \<times> filesystem" where
  "write_file wd p content fs =
     (case open_w wd p fs of
        Inl err \<Rightarrow> (Inl err, fs)
      | Inr loc \<Rightarrow> (Inr (), fs(loc \<mapsto> File content)))"

text \<open>\<^verbatim>\<open>open(p, 'a')\<close> followed by writing \<open>content\<close>.\<close>

definition append_file :: "string \<Rightarrow> string \<Rightarrow> bytes \<Rightarrow> filesystem \<Rightarrow> (exn + unit) \<times> filesystem" where
  "append_file wd p content fs =
     (case open_w wd p fs of
        Inl err \<Rightarrow> (Inl err, fs)
      | Inr loc \<Rightarrow>
          (case node_at fs loc of
             Some (File old) \<Rightarrow> (Inr (), fs(loc \<mapsto> File (old @ content)))
           | _ \<Rightarrow> (Inr (), fs(loc \<mapsto> File content))))"

text \<open>\<^verbatim>\<open>open(p, 'rb').read()\<close>\<close>

definition read_file :: "string \<Rightarrow> string \<Rightarrow> filesystem \<Rightarrow> exn + bytes" where
  "read_file wd p fs =
     (case locate wd p fs of
        Inl err \<Rightarrow> Inl err
      | Inr loc \<Rightarrow>
          (case node_at fs loc of
             Some (File content) \<Rightarrow> Inr content
           | Some Dir \<Rightarrow> Inl IsADirectoryError
           | None \<Rightarrow> Inl FileNotFoundError))"

text \<open>\<^verbatim>\<open>os.remove(p)\<close>: removes a regular file only.\<close>

definition os_remove :: "string \<Rightarrow> string \<Rightarrow> filesystem \<Rightarrow> (exn + unit) \<times> filesystem" where
  "os_remove wd p fs =
     (case locate wd p fs of
        Inl err \<Rightarrow> (Inl err, fs)
      | Inr loc \<Rightarrow>
          (case node_at fs loc of
             Some (File _) \<Rightarrow> (Inr (), fs(loc := None))
           | Some Dir \<Rightarrow> (Inl IsADirectoryError, fs)
           | None \<Rightarrow> (Inl FileNotFoundError, fs)))"

text \<open>
  \<^verbatim>\<open>shutil.rmtree(p)\<close>: everything below the directory is removed, then the directory
  itself by \<^verbatim>\<open>os.rmdir(p)\<close>, which walks the name again and refuses a name whose last
  segment is \<open>.\<close> or \<open>..\<close>, and the root.
\<close>

definition shutil_rmtree :: "string \<Rightarrow> string \<Rightarrow> filesystem \<Rightarrow> (exn + unit) \<times> filesystem" where
  "shutil_rmtree wd p fs =
     (case locate wd p fs of
        Inl err \<Rightarrow> (Inl err, fs)
      | Inr loc \<Rightarrow>
          (case node_at fs loc of
             Some Dir \<Rightarrow>
               (let fs1 = (\<lambda>q. if strict_prefix loc q then None else fs q) in
                case locate wd p fs1 of
                  Inl err \<Rightarrow> (Inl err, fs1)
                | Inr loc1 \<Rightarrow>
                    if loc1 = [] \<or> last (segments wd p) = ''.'' \<or> last (segments wd p) = ''..''
                    then (Inl OSError, fs1)
                    else (Inr (), fs1(loc1 := None)))
           | Some (File _) \<Rightarrow> (Inl NotADirectoryError, fs)
           | None \<Rightarrow> (Inl FileNotFoundError, fs)))"

subsection \<open>Archives, images, the remote server\<close>

text \<open>
  A member of an archive as \<open>tarfile\<close> presents it: its name, whether it is a regular
  file, and the bytes \<^verbatim>\<open>extractfile(member).read()\<close> yields (\<open>None\<close> when reading them
  raises, as for a truncated archive).
\<close>

record TarInfo =
  name :: string
  isfile :: bool
  payload :: "bytes option"

text \<open>What \<^verbatim>\<open>session.get\<close> and the streaming of the body do for a URL.\<close>

datatype response =
    Refused exn
  | Body bytes "exn option"

text \<open>
  An image as \<open>PIL\<close> holds it: the mode (\<open>RGB\<close>, \<open>L\<close>, \<open>RGBA\<close>, ...), the size in pixels
  and the pixel data.
\<close>

record image =
  img_mode :: string
  img_width :: nat
  img_height :: nat
  img_data :: bytes

text \<open>
  The parameters of the model:
  \<^item> \<open>cwd\<close>: \<^verbatim>\<open>os.getcwd()\<close>;
  \<^item> \<open>tar_members\<close>: the members \<^verbatim>\<open>tarfile.open(...).getmembers()\<close> finds in a file
    with the given bytes, \<open>None\<close> when the file is not a readable archive;
  \<^item> \<open>image_open\<close>: \<^verbatim>\<open>Image.open(io.BytesIO(b))\<close> and the decoding of the pixels that
    the first use of the image triggers, \<open>None\<close> when one of them raises;
  \<^item> \<open>recolour\<close>: the pixel data of an image converted from one mode to another;
  \<^item> \<open>resample\<close>: the pixel data of an image resampled to a width and a height with the
    Lanczos filter;
  \<^item> \<open>jpeg_encode\<close>: the bytes of the JPEG file of an image at a quality;
  \<^item> \<open>http_get\<close>: the answer of the server, after the retries of the session:
    \<open>Refused e\<close> when the request or \<^verbatim>\<open>raise_for_status\<close> raises before any byte is written,
    \<open>Body b err\<close> when the bytes \<open>b\<close> arrive, followed by an exception if \<open>err\<close> is not \<open>None\<close>;
  \<^item> \<open>now\<close>: \<^verbatim>\<open>datetime.now().isoformat()\<close>.
\<close>

record env =
  cwd :: string
  tar_members :: "bytes \<Rightarrow> TarInfo list option"
  image_open :: "bytes \<Rightarrow> image option"
  recolour :: "string \<Rightarrow> string \<Rightarrow> bytes \<Rightarrow> bytes"
  resample :: "image \<Rightarrow> nat \<Rightarrow> nat \<Rightarrow> bytes"
  jpeg_encode :: "nat \<Rightarrow> image \<Rightarrow> bytes"
  http_get :: "string \<Rightarrow> response"
  now :: string

text \<open>\<^verbatim>\<open>img.convert(mode)\<close>: an image of the given mode and the same size.\<close>

definition convert :: "env \<Rightarrow> string \<Rightarrow> image \<Rightarrow> image" where
  "convert e m img = img\<lparr>img_mode := m, img_data := recolour e (img_mode img) m (img_data img)\<rparr>"

text \<open>\<^verbatim>\<open>img.resize((w, h), Image.Resampling.LANCZOS)\<close>: an image of the given size and the same mode.\<close>

definition resize :: "env \<Rightarrow> nat \<Rightarrow> nat \<Rightarrow> image \<Rightarrow> image" where
  "resize e w h img = img\<lparr>img_width := w, img_height := h, img_data := resample e img w h\<rparr>"

text \<open>The file object \<^verbatim>\<open>tar.extractfile(member)\<close> returns: the bytes and a read position.\<close>

record stream =
  src :: "bytes option"
  offset :: nat

definition extractfile :: "TarInfo \<Rightarrow> stream option" where
  "extractfile m = (if isfile m then Some \<lparr>src = payload m, offset = 0\<rparr> else None)"

text \<open>\<^verbatim>\<open>f.read()\<close>: the bytes from the position to the end; the position moves to the end.\<close>

definition stream_read :: "stream \<Rightarrow> (exn + bytes) \<times> stream" where
  "stream_read s =
     (case src s of
        None \<Rightarrow> (Inl ReadError, s)
      | Some b \<Rightarrow> (Inr (drop (offset s) b), s\<lparr>offset := length b\<rparr>))"

definition stream_seek :: "nat \<Rightarrow> stream \<Rightarrow> stream" where
  "stream_seek n s = s\<lparr>offset := n\<rparr>"

text \<open>\<^verbatim>\<open>tarfile.open(tar_path, "r:*")\<close> and \<^verbatim>\<open>tar.getmembers()\<close>\<close>

definition tarfile_open :: "env \<Rightarrow> string \<Rightarrow> filesystem \<Rightarrow> exn + TarInfo list" where
  "tarfile_open e tar_path fs =
     (case read_file (cwd e) tar_path fs of
        Inl err \<Rightarrow> Inl err
      | Inr content \<Rightarrow>
          (case tar_members e content of None \<Rightarrow> Inl ReadError | Some members \<Rightarrow> Inr members))"

section \<open>Item archive processor: extract_tar (main.py, lines 95-154)\<close>

text \<open>\<^verbatim>\<open>if target_path:\<close> holds for a string that is neither \<open>None\<close> nor empty.\<close>

fun truthy :: "string option \<Rightarrow> bool" where
  "truthy None = False"
| "truthy (Some s) = (s \<noteq> [])"

text \<open>Lines 110-113: the extraction directory.\<close>

fun dest_folder_of :: "string \<Rightarrow> string \<Rightarrow> string option \<Rightarrow> string" where
  "dest_folder_of part_id tar_path None = os_path_join (os_path_dirname tar_path) part_id"
| "dest_folder_of part_id tar_path (Some t) =
     (if t \<noteq> [] then os_path_join t part_id
      else os_path_join (os_path_dirname tar_path) part_id)"

text \<open>
  Lines 136-143, the body of the inner \<^verbatim>\<open>try\<close>: read the entry, decode and resize it,
  create the parent directory, save the JPEG under the member's path.
\<close>

definition convert_and_save ::
  "env \<Rightarrow> string \<Rightarrow> stream \<Rightarrow> filesystem \<Rightarrow> (exn + unit) \<times> stream \<times> filesystem" where
  "convert_and_save e member_path extracted fs =
     (case stream_read extracted of
        (Inl err, s1) \<Rightarrow> (Inl err, s1, fs)
      | (Inr b, s1) \<Rightarrow>
          (case image_open e b of
             None \<Rightarrow> (Inl UnidentifiedImageError, s1, fs)
           | Some img \<Rightarrow>
               (let img1 = convert e ''RGB'' img;
                    img2 = resize e 256 256 img1
                in case os_makedirs (cwd e) (os_path_dirname member_path) fs of
                     (Inl err, fs1) \<Rightarrow> (Inl err, s1, fs1)
                   | (Inr _, fs1) \<Rightarrow>
                       (case write_file (cwd e) member_path (jpeg_encode e 95 img2) fs1 of
                          (r, fs2) \<Rightarrow> (r, s1, fs2)))))"

text \<open>
  Lines 144-149, the handler of the inner \<^verbatim>\<open>try\<close>: create the parent directory, open the
  destination for writing, rewind the entry, copy its bytes. Nothing catches what is raised
  here.
\<close>

definition raw_copy ::
  "env \<Rightarrow> string \<Rightarrow> stream \<Rightarrow> filesystem \<Rightarrow> (exn + unit) \<times> filesystem" where
  "raw_copy e member_path extracted fs =
     (case os_makedirs (cwd e) (os_path_dirname member_path) fs of
        (Inl err, fs1) \<Rightarrow> (Inl err, fs1)
      | (Inr _, fs1) \<Rightarrow>
          (case open_w (cwd e) member_path fs1 of
             Inl err \<Rightarrow> (Inl err, fs1)
           | Inr f \<Rightarrow>
               (case stream_read (stream_seek 0 extracted) of
                  (Inl err, _) \<Rightarrow> (Inl err, fs1(f \<mapsto> File []))
                | (Inr b, _) \<Rightarrow> (Inr (), fs1(f \<mapsto> File b)))))"

text \<open>Lines 126-127: the check that guards every write of the loop.\<close>

definition path_check :: "string \<Rightarrow> string \<Rightarrow> exn + bool" where
  "path_check dest_folder member_path =
     (case os_path_commonpath dest_folder member_path of
        Inl err \<Rightarrow> Inl err
      | Inr common \<Rightarrow> Inr (startswith common dest_folder))"

text \<open>Lines 122-151: the body of the loop over the members.\<close>

definition extract_member ::
  "env \<Rightarrow> string \<Rightarrow> TarInfo \<Rightarrow> filesystem \<Rightarrow> (exn + unit) \<times> filesystem" where
  "extract_member e dest_folder m fs =
     (let member_path = os_path_join dest_folder (name m) in
      case path_check dest_folder member_path of
        Inl err \<Rightarrow> (Inl err, fs)
      | Inr False \<Rightarrow> (Inr (), fs)
      | Inr True \<Rightarrow>
          (case extractfile m of
             None \<Rightarrow> (Inr (), fs)
           | Some extracted \<Rightarrow>
               (case convert_and_save e member_path extracted fs of
                  (Inr _, _, fs1) \<Rightarrow> (Inr (), fs1)
                | (Inl _, s1, fs1) \<Rightarrow> raw_copy e member_path s1 fs1)))"

fun extract_members ::
  "env \<Rightarrow> string \<Rightarrow> TarInfo list \<Rightarrow> filesystem \<Rightarrow> (exn + unit) \<times> filesystem" where
  "extract_members e dest_folder [] fs = (Inr (), fs)"
| "extract_members e dest_folder (m # ms) fs =
     (case extract_member e dest_folder m fs of
        (Inl err, fs1) \<Rightarrow> (Inl err, fs1)
      | (Inr _, fs1) \<Rightarrow> extract_members e dest_folder ms fs1)"

text \<open>
  \<open>extract_tar\<close>. The directory is created before the \<^verbatim>\<open>try\<close>; inside it, every exception
  that reaches the outer handler is logged and raised again.
\<close>

definition extract_tar ::
  "env \<Rightarrow> string \<Rightarrow> string \<Rightarrow> string option \<Rightarrow> filesystem \<Rightarrow> (exn + unit) \<times> filesystem" where
  "extract_tar e part_id tar_path target_path fs =
     (let dest_folder = dest_folder_of part_id tar_path target_path in
      case os_makedirs (cwd e) dest_folder fs of
        (Inl err, fs1) \<Rightarrow> (Inl err, fs1)
      | (Inr _, fs1) \<Rightarrow>
          (case tarfile_open e tar_path fs1 of
             Inl err \<Rightarrow> (Inl err, fs1)
           | Inr members \<Rightarrow> extract_members e dest_folder (filter isfile members) fs1))"

section \<open>Slot allocator: class PositionManager (main.py, lines 27-47)\<close>

text \<open>
  The allocator keeps a list of free display positions and a dictionary from task id to
  the position it holds. Every method body runs under the object's lock, so a method call
  is one atomic state transition; the model passes the state explicitly.
\<close>

record PositionManager =
  max_workers :: int
  available :: "int list"
  in_use :: "string \<rightharpoonup> int"

text \<open>\<^verbatim>\<open>__init__\<close>: \<^verbatim>\<open>list(range(max_workers))\<close> is empty when \<^verbatim>\<open>max_workers\<close> is not positive.\<close>

definition new_PositionManager :: "int \<Rightarrow> PositionManager" where
  "new_PositionManager n = \<lparr>max_workers = n, available = [0..n - 1], in_use = Map.empty\<rparr>"

text \<open>\<^verbatim>\<open>acquire\<close>: pop the head of the free list and record it, or return 0 when it is empty.\<close>

definition acquire :: "string \<Rightarrow> PositionManager \<Rightarrow> int \<times> PositionManager" where
  "acquire task_id pm =
     (case available pm of
        pos # rest \<Rightarrow> (pos, pm\<lparr>available := rest, in_use := (in_use pm)(task_id \<mapsto> pos)\<rparr>)
      | [] \<Rightarrow> (0, pm))"

text \<open>\<^verbatim>\<open>release\<close>: pop the recorded position, append it to the free list, sort the list.\<close>

definition release :: "string \<Rightarrow> PositionManager \<Rightarrow> PositionManager" where
  "release task_id pm =
     (case in_use pm task_id of
        Some pos \<Rightarrow>
          pm\<lparr>in_use := (in_use pm)(task_id := None), available := sort (available pm @ [pos])\<rparr>
      | None \<Rightarrow> pm)"

datatype pm_call = Acquire string | Release string

fun pm_step :: "PositionManager \<Rightarrow> pm_call \<Rightarrow> PositionManager" where
  "pm_step pm (Acquire t) = snd (acquire t pm)"
| "pm_step pm (Release t) = release t pm"

definition pm_run :: "pm_call list \<Rightarrow> PositionManager \<Rightarrow> PositionManager" where
  "pm_run calls pm = foldl pm_step pm calls"

text \<open>
  The invariant of the allocator: the free list is sorted and free of duplicates, free and
  held positions lie in \<open>[0, n)\<close>, no held position is free, and no two owners hold the
  same position.
\<close>

definition pm_inv :: "int \<Rightarrow> PositionManager \<Rightarrow> bool" where
  "pm_inv n pm \<longleftrightarrow>
     sorted (available pm) \<and> distinct (available pm) \<and>
     (\<forall>x \<in> set (available pm). 0 \<le> x \<and> x < n) \<and>
     (\<forall>x \<in> ran (in_use pm). 0 \<le> x \<and> x < n \<and> x \<notin> set (available pm)) \<and>
     inj_on (in_use pm) (dom (in_use pm))"

text \<open>Two allocator states used as concrete instances below.\<close>

definition pm_two_busy :: PositionManager where
  "pm_two_busy = pm_run [Acquire ''a'', Acquire ''b''] (new_PositionManager 2)"

definition pm_one_free :: PositionManager where
  "pm_one_free = pm_run [Acquire ''a'', Acquire ''b'', Release ''a''] (new_PositionManager 2)"

section \<open>Resumable item pipeline: download_tar (main.py, lines 156-292)\<close>

text \<open>
  The state the pipeline acts on: the file system, the URLs requested so far (so that
  "no network request" can be stated), and the shared slot allocator.
\<close>

record world =
  files :: filesystem
  requests :: "string list"
  slots :: PositionManager

text \<open>The dictionary \<open>download_tar\<close> returns.\<close>

record result =
  res_part_id :: string
  success :: bool
  error :: "string option"
  skipped :: bool

text \<open>Lines 182-185: the base directory.\<close>

fun base_dir_of :: "env \<Rightarrow> string option \<Rightarrow> string" where
  "base_dir_of e None = cwd e"
| "base_dir_of e (Some t) = (if t \<noteq> [] then t else cwd e)"

text \<open>
  Lines 212-221: remove the extraction directory of an interrupted run, then a left-over
  archive file.
\<close>

definition clean_stale ::
  "env \<Rightarrow> string \<Rightarrow> string \<Rightarrow> filesystem \<Rightarrow> (exn + unit) \<times> filesystem" where
  "clean_stale e extract_dir tar_path fs =
     (case (if os_path_exists (cwd e) extract_dir fs
            then shutil_rmtree (cwd e) extract_dir fs else (Inr (), fs)) of
        (Inl err, fs1) \<Rightarrow> (Inl err, fs1)
      | (Inr _, fs1) \<Rightarrow>
          (if os_path_exists (cwd e) tar_path fs1
           then os_remove (cwd e) tar_path fs1 else (Inr (), fs1)))"

text \<open>
  Lines 227-249: request the archive and stream the body into the archive file. The
  chunks written one after the other are the bytes of the body.
\<close>

definition fetch :: "env \<Rightarrow> string \<Rightarrow> string \<Rightarrow> world \<Rightarrow> (exn + unit) \<times> world" where
  "fetch e tar_url tar_path w =
     (let w1 = w\<lparr>requests := requests w @ [tar_url]\<rparr> in
      case http_get e tar_url of
        Refused err \<Rightarrow> (Inl err, w1)
      | Body b broken \<Rightarrow>
          (case write_file (cwd e) tar_path b (files w1) of
             (Inl err, fs1) \<Rightarrow> (Inl err, w1\<lparr>files := fs1\<rparr>)
           | (Inr _, fs1) \<Rightarrow>
               (case broken of
                  Some err \<Rightarrow> (Inl err, w1\<lparr>files := fs1\<rparr>)
                | None \<Rightarrow> (Inr (), w1\<lparr>files := fs1\<rparr>))))"

text \<open>
  Lines 251-269: extract, write the completion marker, delete the archive if requested
  (an exception of that deletion is swallowed), return the success result.
\<close>

definition extract_and_mark ::
  "env \<Rightarrow> string \<Rightarrow> string \<Rightarrow> string option \<Rightarrow> string \<Rightarrow> bool \<Rightarrow> filesystem
     \<Rightarrow> (exn + result) \<times> filesystem" where
  "extract_and_mark e part_id tar_path target_path base_dir delete_tar fs =
     (case extract_tar e part_id tar_path target_path fs of
        (Inl err, fs1) \<Rightarrow> (Inl err, fs1)
      | (Inr _, fs1) \<Rightarrow>
          (let extract_dir = os_path_join base_dir part_id;
               completion_marker = os_path_join extract_dir ''.download_complete''
           in case write_file (cwd e) completion_marker
                     (''Completed at: '' @ now e @ [CHR 0x0A]) fs1 of
                (Inl err, fs2) \<Rightarrow> (Inl err, fs2)
              | (Inr _, fs2) \<Rightarrow>
                  (let fs3 = (if delete_tar then snd (os_remove (cwd e) tar_path fs2) else fs2)
                   in (Inr \<lparr>res_part_id = part_id, success = True, error = None,
                             skipped = False\<rparr>, fs3))))"

text \<open>Lines 226-270, the body of the inner \<^verbatim>\<open>try\<close>.\<close>

definition attempt ::
  "env \<Rightarrow> string \<Rightarrow> string \<Rightarrow> string \<Rightarrow> string option \<Rightarrow> string \<Rightarrow> bool \<Rightarrow> world
     \<Rightarrow> (exn + result) \<times> world" where
  "attempt e part_id tar_url tar_path target_path base_dir delete_tar w =
     (case fetch e tar_url tar_path w of
        (Inl err, w1) \<Rightarrow> (Inl err, w1)
      | (Inr _, w1) \<Rightarrow>
          (case extract_and_mark e part_id tar_path target_path base_dir delete_tar (files w1) of
             (r, fs2) \<Rightarrow> (r, w1\<lparr>files := fs2\<rparr>)))"

text \<open>
  Lines 275-292, the handler of the outer \<^verbatim>\<open>try\<close>: append the failure to the log (an
  exception here leaves the function), remove the archive file if there is one (an
  exception here is swallowed), return the failure result.
\<close>

definition on_failure ::
  "env \<Rightarrow> string \<Rightarrow> string \<Rightarrow> string \<Rightarrow> exn \<Rightarrow> filesystem \<Rightarrow> (exn + result) \<times> filesystem" where
  "on_failure e part_id log_file tar_path err fs =
     (case append_file (cwd e) log_file (part_id @ '' - '' @ str_exn err @ [CHR 0x0A]) fs of
        (Inl x, fs1) \<Rightarrow> (Inl x, fs1)
      | (Inr _, fs1) \<Rightarrow>
          (let fs2 = (if os_path_exists (cwd e) tar_path fs1
                      then snd (os_remove (cwd e) tar_path fs1) else fs1)
           in (Inr \<lparr>res_part_id = part_id, success = False, error = Some (str_exn err),
                     skipped = False\<rparr>, fs2)))"

text \<open>
  Lines 223-292: what \<open>download_tar\<close> does once the stale state is removed. The slot is
  released by the \<^verbatim>\<open>finally\<close> clause before the outer handler runs.
\<close>

definition run_fresh ::
  "env \<Rightarrow> string \<Rightarrow> string option \<Rightarrow> string \<Rightarrow> bool \<Rightarrow> world \<Rightarrow> (exn + result) \<times> world" where
  "run_fresh e part_id target_path main_link delete_tar w =
     (let base_dir = base_dir_of e target_path;
          log_file = os_path_join base_dir ''failed_downloads.log'';
          tar_url = main_link @ ''/'' @ part_id @ ''.tar'';
          tar_path = os_path_join base_dir (part_id @ ''.tar'')
      in case acquire part_id (slots w) of
           (position, pm1) \<Rightarrow>
             (case attempt e part_id tar_url tar_path target_path base_dir delete_tar
                     (w\<lparr>slots := pm1\<rparr>) of
                (r, w2) \<Rightarrow>
                  (let w3 = w2\<lparr>slots := release part_id (slots w2)\<rparr>
                   in case r of
                        Inr res \<Rightarrow> (Inr res, w3)
                      | Inl err \<Rightarrow>
                          (case on_failure e part_id log_file tar_path err (files w3) of
                             (r', fs4) \<Rightarrow> (r', w3\<lparr>files := fs4\<rparr>)))))"

text \<open>
  \<open>download_tar\<close>. The session argument carries no state of the model; the position manager
  is the \<open>slots\<close> field of the world. The base directory is created before the \<^verbatim>\<open>try\<close>.
\<close>

definition download_tar ::
  "env \<Rightarrow> string \<Rightarrow> string option \<Rightarrow> string \<Rightarrow> bool \<Rightarrow> world \<Rightarrow> (exn + result) \<times> world" where
  "download_tar e part_id target_path main_link delete_tar w =
     (let base_dir = base_dir_of e target_path in
      case os_makedirs (cwd e) base_dir (files w) of
        (Inl err, fs0) \<Rightarrow> (Inl err, w\<lparr>files := fs0\<rparr>)
      | (Inr _, fs0) \<Rightarrow>
          (let log_file = os_path_join base_dir ''failed_downloads.log'';
               tar_path = os_path_join base_dir (part_id @ ''.tar'');
               extract_dir = os_path_join base_dir part_id;
               completion_marker = os_path_join extract_dir ''.download_complete''
           in if os_path_exists (cwd e) completion_marker fs0
              then (Inr \<lparr>res_part_id = part_id, success = True, error = None,
                          skipped = True\<rparr>, w\<lparr>files := fs0\<rparr>)
              else (case clean_stale e extract_dir tar_path fs0 of
                      (Inl err, fs1) \<Rightarrow>
                        (case on_failure e part_id log_file tar_path err fs1 of
                           (r', fs4) \<Rightarrow> (r', w\<lparr>files := fs4\<rparr>))
                    | (Inr _, fs1) \<Rightarrow>
                        run_fresh e part_id target_path main_link delete_tar
                          (w\<lparr>files := fs1\<rparr>))))"

section \<open>Batch coordinator: download_batch (main.py, lines 328-420)\<close>

text \<open>The dictionary of counters \<open>download_batch\<close> returns.\<close>

record stats =
  n_success :: int
  n_failed :: int
  n_skipped :: int

text \<open>
  What a future delivers to the aggregation loop: the dictionary, or the exception that
  left \<open>download_tar\<close>.
\<close>

type_synonym outcome = "exn + result"

text \<open>Lines 397-410: one iteration of the aggregation loop.\<close>

fun tally :: "stats \<Rightarrow> outcome \<Rightarrow> stats" where
  "tally st (Inr r) =
     (if skipped r then st\<lparr>n_skipped := n_skipped st + 1\<rparr>
      else if success r then st\<lparr>n_success := n_success st + 1\<rparr>
      else st\<lparr>n_failed := n_failed st + 1\<rparr>)"
| "tally st (Inl err) = st\<lparr>n_failed := n_failed st + 1\<rparr>"

text \<open>
  The submitted calls of \<open>download_tar\<close>, one per element of the list. The model runs them
  one after the other in the order of submission, which is one of the schedules of the
  thread pool; the interleaving of several workers is not modelled.
\<close>

fun run_all ::
  "env \<Rightarrow> string list \<Rightarrow> string option \<Rightarrow> string \<Rightarrow> bool \<Rightarrow> world \<Rightarrow> outcome list \<times> world" where
  "run_all e [] target_path main_link delete_tar w = ([], w)"
| "run_all e (part_id # rest) target_path main_link delete_tar w =
     (case download_tar e part_id target_path main_link delete_tar w of
        (r, w1) \<Rightarrow>
          (case run_all e rest target_path main_link delete_tar w1 of
             (rs, w2) \<Rightarrow> (r # rs, w2)))"

text \<open>
  \<open>download_batch\<close>. \<^verbatim>\<open>ThreadPoolExecutor(max_workers=num_workers)\<close> raises
  \<open>ValueError\<close> unless \<open>num_workers\<close> is positive.
\<close>

definition download_batch ::
  "env \<Rightarrow> string list \<Rightarrow> string \<Rightarrow> int \<Rightarrow> bool \<Rightarrow> string \<Rightarrow> world \<Rightarrow> (exn + stats) \<times> world" where
  "download_batch e part_ids target_path num_workers delete_tar main_link w =
     (if part_ids = [] then (Inr \<lparr>n_success = 0, n_failed = 0, n_skipped = 0\<rparr>, w)
      else (let w0 = w\<lparr>slots := new_PositionManager num_workers\<rparr> in
            if num_workers \<le> 0 then (Inl ValueError, w0)
            else (case run_all e part_ids (Some target_path) main_link delete_tar w0 of
                    (outcomes, w1) \<Rightarrow>
                      (Inr (foldl tally \<lparr>n_success = 0, n_failed = 0, n_skipped = 0\<rparr> outcomes),
                       w1))))"

section \<open>Auxiliary notions for the statements\<close>

text \<open>A plain file name: a single path segment other than \<open>.\<close> and \<open>..\<close>.\<close>

definition plain :: "string \<Rightarrow> bool" where
  "plain s \<longleftrightarrow> s \<noteq> [] \<and> s \<noteq> ''.'' \<and> s \<noteq> ''..'' \<and> CHR ''/'' \<notin> set s"

text \<open>The file system is a tree: the parent of every node is a directory.\<close>

definition wf_fs :: "filesystem \<Rightarrow> bool" where
  "wf_fs fs \<longleftrightarrow> (\<forall>p c. fs (p @ [c]) \<noteq> None \<longrightarrow> node_at fs p = Some Dir)"

definition is_file :: "filesystem \<Rightarrow> path \<Rightarrow> bool" where
  "is_file fs loc = (case node_at fs loc of Some (File _) \<Rightarrow> True | _ \<Rightarrow> False)"

text \<open>The exception that opening a path for writing raises, if any.\<close>

definition write_check :: "string \<Rightarrow> string \<Rightarrow> filesystem \<Rightarrow> exn option" where
  "write_check wd p fs = (case open_w wd p fs of Inl err \<Rightarrow> Some err | Inr _ \<Rightarrow> None)"

text \<open>
  The bytes line 143 writes for an entry with the bytes \<open>b\<close>: the JPEG encoding at quality
  95 of the decoded image, converted to \<open>RGB\<close> and resized to 256 by 256; \<open>None\<close> when
  the entry does not decode.
\<close>

definition to_jpeg :: "env \<Rightarrow> bytes \<Rightarrow> bytes option" where
  "to_jpeg e b =
     (case image_open e b of
        None \<Rightarrow> None
      | Some img \<Rightarrow> Some (jpeg_encode e 95 (resize e 256 256 (convert e ''RGB'' img))))"

text \<open>What extraction stores for a payload: the JPEG when it decodes, else the payload itself.\<close>

definition stored :: "env \<Rightarrow> bytes \<Rightarrow> bytes" where
  "stored e b = (case to_jpeg e b of Some jpeg \<Rightarrow> jpeg | None \<Rightarrow> b)"

text \<open>The path an entry is written to, and the entries the loop does not skip.\<close>

definition dest_path :: "string \<Rightarrow> TarInfo \<Rightarrow> string" where
  "dest_path dest_folder m = os_path_join dest_folder (name m)"

definition extracted_ok :: "string \<Rightarrow> TarInfo \<Rightarrow> bool" where
  "extracted_ok dest_folder m \<longleftrightarrow>
     isfile m \<and> path_check dest_folder (dest_path dest_folder m) = Inr True"

text \<open>
  The outcome of copying an entry once its parent directory has been created (or could
  not be): the write check, then the read of the entry.
\<close>

definition copy_result ::
  "string \<Rightarrow> string \<Rightarrow> bytes option \<Rightarrow> (exn + unit) \<times> filesystem \<Rightarrow> (exn + unit) \<times> filesystem" where
  "copy_result wd mp content made =
     (case made of
        (Inl x, fs1) \<Rightarrow> (Inl x, fs1)
      | (Inr u, fs1) \<Rightarrow>
          (case write_check wd mp fs1 of
             Some x \<Rightarrow> (Inl x, fs1)
           | None \<Rightarrow>
               (case content of
                  None \<Rightarrow> (Inl ReadError, fs1(resolve wd mp \<mapsto> File []))
                | Some b \<Rightarrow> (Inr (), fs1(resolve wd mp \<mapsto> File b)))))"

text \<open>The paths of an item, as lines 182-202 compute them.\<close>

definition extract_dir_of :: "env \<Rightarrow> string option \<Rightarrow> string \<Rightarrow> string" where
  "extract_dir_of e target_path part_id = os_path_join (base_dir_of e target_path) part_id"

definition completion_marker_of :: "env \<Rightarrow> string option \<Rightarrow> string \<Rightarrow> string" where
  "completion_marker_of e target_path part_id =
     os_path_join (extract_dir_of e target_path part_id) ''.download_complete''"

definition tar_path_of :: "env \<Rightarrow> string option \<Rightarrow> string \<Rightarrow> string" where
  "tar_path_of e target_path part_id = os_path_join (base_dir_of e target_path) (part_id @ ''.tar'')"

definition log_file_of :: "env \<Rightarrow> string option \<Rightarrow> string" where
  "log_file_of e target_path = os_path_join (base_dir_of e target_path) ''failed_downloads.log''"

definition tar_url_of :: "string \<Rightarrow> string \<Rightarrow> string" where
  "tar_url_of main_link part_id = main_link @ ''/'' @ part_id @ ''.tar''"

text \<open>An item that carries its completion marker, the item id being a relative path.\<close>

definition completed :: "env \<Rightarrow> string option \<Rightarrow> filesystem \<Rightarrow> string \<Rightarrow> bool" where
  "completed e target_path fs part_id \<longleftrightarrow>
     \<not> startswith part_id ''/'' \<and>
     os_path_exists (cwd e) (completion_marker_of e target_path part_id) fs"






section \<open>Concrete instances\<close>

text \<open>
  A small environment on which the model is evaluated: a server with a few archives, an
  archive reader that knows their members, and an image library that decodes one payload.
\<close>

definition demo_members :: "bytes \<Rightarrow> TarInfo list option" where
  "demo_members b =
     (if b = ''TAR-GOOD'' then
        Some [\<lparr>name = ''photo.png'', isfile = True, payload = Some ''PNG''\<rparr>,
              \<lparr>name = ''sub'', isfile = False, payload = None\<rparr>,
              \<lparr>name = ''sub/notes.txt'', isfile = True, payload = Some ''hello''\<rparr>]
      else if b = ''TAR-ESCAPE'' then
        Some [\<lparr>name = ''../evil.txt'', isfile = True, payload = Some ''payload''\<rparr>,
              \<lparr>name = ''ok.txt'', isfile = True, payload = Some ''fine''\<rparr>]
      else if b = ''TAR-ABS'' then
        Some [\<lparr>name = ''/etc/passwd'', isfile = True, payload = Some ''root''\<rparr>,
              \<lparr>name = ''ok.txt'', isfile = True, payload = Some ''fine''\<rparr>]
      else if b = ''TAR-CLASH'' then
        Some [\<lparr>name = ''.download_complete'', isfile = True, payload = Some ''fake''\<rparr>,
              \<lparr>name = ''a'', isfile = True, payload = Some ''x''\<rparr>,
              \<lparr>name = ''a/b'', isfile = True, payload = Some ''y''\<rparr>,
              \<lparr>name = ''c'', isfile = True, payload = Some ''z''\<rparr>]
      else if b = ''TAR-LATE'' then
        Some [\<lparr>name = ''a'', isfile = True, payload = Some ''x''\<rparr>,
              \<lparr>name = ''a/b.png'', isfile = True, payload = Some ''PNG''\<rparr>,
              \<lparr>name = ''late.png'', isfile = True, payload = Some ''PNG''\<rparr>]
      else None)"

definition demo_get :: "string \<Rightarrow> response" where
  "demo_get url =
     (if url = ''http://h/n001.tar'' then Body ''TAR-GOOD'' None
      else if url = ''http://h/n003.tar'' then Body ''TAR-CLASH'' None
      else if url = ''http://h/n004.tar'' then Body ''<html>'' None
      else if url = ''http://h/n005.tar'' then Body ''TAR-ESCAPE'' None
      else if url = ''http://h/n006.tar'' then Body ''TAR-'' (Some (RequestException ''Connection broken''))
      else Refused (RequestException ''404 Client Error''))"

definition demo_env :: env where
  "demo_env = \<lparr>cwd = ''/w'', tar_members = demo_members,
                image_open = (\<lambda>b. if b = ''PNG''
                   then Some \<lparr>img_mode = ''RGBA'', img_width = 10, img_height = 10, img_data = ''px''\<rparr>
                   else None),
                recolour = (\<lambda>from to d. d),
                resample = (\<lambda>img w h. img_data img),
                jpeg_encode = (\<lambda>q img. ''JPEG/'' @ img_mode img),
                http_get = demo_get, now = ''2024-01-01T00:00:00''\<rparr>"

definition demo_world :: world where
  "demo_world = \<lparr>files = [[''w''] \<mapsto> Dir], requests = [], slots = new_PositionManager 2\<rparr>"


text \<open>
  File systems in which an archive with the given bytes has been downloaded for an item,
  and two entries of the archive \<open>TAR-GOOD\<close>.
\<close>

definition with_tar :: "string \<Rightarrow> bytes \<Rightarrow> filesystem" where
  "with_tar part_id content =
     [[''w''] \<mapsto> Dir, [''w'', ''out''] \<mapsto> Dir, [''w'', ''out'', part_id @ ''.tar''] \<mapsto> File content]"







text \<open>
  The world after a first batch over the item \<open>n001\<close>, whose archive is \<open>TAR-GOOD\<close>, and
  after a first batch over the item \<open>n002\<close>, which the server does not have.
\<close>

definition first_run :: world where
  "first_run = snd (download_batch demo_env [''n001''] ''out'' 2 False ''http://h'' demo_world)"

definition failed_run :: world where
  "failed_run = snd (download_batch demo_env [''n002''] ''out'' 2 False ''http://h'' demo_world)"

text \<open>A world in which an item stored under \<open>/data/n01\<close> carries its completion marker.\<close>

definition abs_world :: world where
  "abs_world = \<lparr>files = [[''w''] \<mapsto> Dir, [''data''] \<mapsto> Dir, [''data'', ''n01''] \<mapsto> Dir,
                          [''data'', ''n01'', ''.download_complete''] \<mapsto> File ''Completed''],
                 requests = [], slots = new_PositionManager 2\<rparr>"

text \<open>
  A world an interrupted run of the item \<open>n001\<close> has left: a directory with an old file
  and no marker, and a partial archive.
\<close>

definition stale_world :: world where
  "stale_world = \<lparr>files = [[''w''] \<mapsto> Dir, [''w'', ''out''] \<mapsto> Dir,
                            [''w'', ''out'', ''n001''] \<mapsto> Dir,
                            [''w'', ''out'', ''n001'', ''old.jpg''] \<mapsto> File ''old'',
                            [''w'', ''out'', ''n001.tar''] \<mapsto> File ''TAR-''],
                   requests = [], slots = new_PositionManager 2\<rparr>"

section \<open>Properties of the slot allocator\<close>

lemma pm_inv_new: "pm_inv n (new_PositionManager n)"
  by (simp add: pm_inv_def new_PositionManager_def)


lemma pm_inv_acquire: "pm_inv n pm \<Longrightarrow> pm_inv n (snd (acquire t pm))"
  apply (cases "available pm")
   apply (simp add: acquire_def)
  apply (auto simp: acquire_def pm_inv_def ran_def inj_on_def dom_def split: if_splits)
  done

lemma pm_inv_release: "pm_inv n pm \<Longrightarrow> pm_inv n (release t pm)"
  apply (cases "in_use pm t")
   apply (simp add: release_def)
  apply (auto simp: release_def pm_inv_def ran_def inj_on_def dom_def split: if_splits)
  done

lemma pm_inv_run: "pm_inv n pm \<Longrightarrow> pm_inv n (pm_run calls pm)"
  unfolding pm_run_def
proof (induction calls arbitrary: pm)
  case Nil then show ?case by simp
next
  case (Cons c calls)
  have "pm_inv n (pm_step pm c)"
    using Cons.prems by (cases c) (simp_all add: pm_inv_acquire pm_inv_release)
  then show ?case using Cons.IH by simp
qed

lemma acquire_free:
  assumes "pm_inv n pm" "available pm \<noteq> []"
  shows "fst (acquire t pm) \<in> set (available pm)"
    and "\<forall>x \<in> set (available pm). fst (acquire t pm) \<le> x"
    and "available (snd (acquire t pm)) = tl (available pm)"
    and "in_use (snd (acquire t pm)) = (in_use pm)(t \<mapsto> fst (acquire t pm))"
  using assms by (cases "available pm"; auto simp: acquire_def pm_inv_def)+

lemma acquire_exhausted: "available pm = [] \<Longrightarrow> acquire t pm = (0, pm)"
  by (simp add: acquire_def)

lemma acquire_range: "pm_inv n pm \<Longrightarrow> 0 < n \<Longrightarrow> 0 \<le> fst (acquire t pm) \<and> fst (acquire t pm) < n"
  by (cases "available pm") (auto simp: acquire_def pm_inv_def)

lemma release_held:
  assumes "in_use pm t = Some pos"
  shows "set (available (release t pm)) = insert pos (set (available pm))"
    and "sorted (available (release t pm))"
    and "in_use (release t pm) = (in_use pm)(t := None)"
    and "fst (acquire t' (release t pm)) = Min (insert pos (set (available pm)))"
proof -
  show "set (available (release t pm)) = insert pos (set (available pm))"
    using assms by (simp add: release_def)
  show "sorted (available (release t pm))"
    using assms by (simp add: release_def)
  show "in_use (release t pm) = (in_use pm)(t := None)"
    using assms by (simp add: release_def)
  let ?xs = "sort (available pm @ [pos])"
  have ne: "?xs \<noteq> []" by (metis append_is_Nil_conv length_0_conv length_sort not_Cons_self2)
  then obtain y ys where ys: "?xs = y # ys" by (cases ?xs) auto
  have "sorted ?xs" by simp
  with ys have "\<forall>x \<in> set ?xs. y \<le> x" by auto
  moreover have "y \<in> set ?xs" using ys by simp
  ultimately have "y = Min (set ?xs)" by (metis List.finite_set Min_eqI)
  moreover have "set ?xs = insert pos (set (available pm))" by simp
  ultimately have "y = Min (insert pos (set (available pm)))" by simp
  then show "fst (acquire t' (release t pm)) = Min (insert pos (set (available pm)))"
    using assms ys by (simp add: release_def acquire_def)
qed

lemma release_not_held: "in_use pm t = None \<Longrightarrow> release t pm = pm"
  by (simp add: release_def)

lemma sorted_release: "sorted (available pm) \<Longrightarrow> sorted (available (release t pm))"
  by (cases "in_use pm t") (simp_all add: release_def)

text \<open>
  Claim C9. In every state reached from a fresh allocator with \<open>n > 0\<close> positions by any
  sequence of acquire and release calls: \<open>acquire\<close> returns a position in \<open>[0, n)\<close>; when the
  free list is not empty it is the least free position, which leaves the free list and is
  recorded for the owner; when the free list is empty the result is 0 and the state is
  unchanged. \<open>release\<close> keeps the free list sorted; when the owner holds a position, that
  position joins the free list, the owner's record is dropped, and the next acquire returns
  the least free position; when the owner holds none, the state is unchanged.
\<close>

theorem slot_allocator_contract:
  assumes "0 < n" and "pm = pm_run calls (new_PositionManager n)"
  shows "(0 \<le> fst (acquire owner pm) \<and> fst (acquire owner pm) < n) \<and>
         (available pm \<noteq> [] \<longrightarrow>
            fst (acquire owner pm) \<in> set (available pm) \<and>
            (\<forall>x \<in> set (available pm). fst (acquire owner pm) \<le> x) \<and>
            available (snd (acquire owner pm)) = tl (available pm) \<and>
            in_use (snd (acquire owner pm)) = (in_use pm)(owner \<mapsto> fst (acquire owner pm))) \<and>
         (available pm = [] \<longrightarrow> acquire owner pm = (0, pm)) \<and>
         sorted (available pm) \<and> sorted (available (release owner pm)) \<and>
         (\<forall>pos. in_use pm owner = Some pos \<longrightarrow>
            set (available (release owner pm)) = insert pos (set (available pm)) \<and>
            in_use (release owner pm) = (in_use pm)(owner := None) \<and>
            fst (acquire other (release owner pm)) = Min (insert pos (set (available pm)))) \<and>
         (in_use pm owner = None \<longrightarrow> release owner pm = pm)"
proof -
  have inv: "pm_inv n pm"
    using assms(2) by (simp add: pm_inv_run pm_inv_new)
  then have srt: "sorted (available pm)"
    by (simp add: pm_inv_def)
  have range: "0 \<le> fst (acquire owner pm) \<and> fst (acquire owner pm) < n"
    by (rule acquire_range [OF inv assms(1)])
  have free: "available pm \<noteq> [] \<longrightarrow>
      fst (acquire owner pm) \<in> set (available pm) \<and>
      (\<forall>x \<in> set (available pm). fst (acquire owner pm) \<le> x) \<and>
      available (snd (acquire owner pm)) = tl (available pm) \<and>
      in_use (snd (acquire owner pm)) = (in_use pm)(owner \<mapsto> fst (acquire owner pm))"
    using acquire_free [OF inv, of owner] by simp
  have exhausted: "available pm = [] \<longrightarrow> acquire owner pm = (0, pm)"
    by (simp add: acquire_exhausted)
  have held: "\<forall>pos. in_use pm owner = Some pos \<longrightarrow>
      set (available (release owner pm)) = insert pos (set (available pm)) \<and>
      in_use (release owner pm) = (in_use pm)(owner := None) \<and>
      fst (acquire other (release owner pm)) = Min (insert pos (set (available pm)))"
    using release_held(1,3) [of pm owner] release_held(4) [of pm owner _ other] by simp
  have not_held: "in_use pm owner = None \<longrightarrow> release owner pm = pm"
    by (simp add: release_not_held)
  from range free exhausted srt sorted_release [OF srt, of owner] held not_held
  show ?thesis by blast
qed

theorem slot_allocator_contract_witness:
  "(0::int) < 2 \<and>
   available pm_one_free = [0] \<and> in_use pm_one_free ''b'' = Some 1 \<and>
   acquire ''c'' pm_one_free = (0, pm_one_free\<lparr>available := [], in_use := (in_use pm_one_free)(''c'' \<mapsto> 0)\<rparr>) \<and>
   available (release ''b'' pm_one_free) = [0, 1] \<and>
   available pm_two_busy = [] \<and> in_use pm_two_busy ''c'' = None \<and>
   acquire ''c'' pm_two_busy = (0, pm_two_busy) \<and>
   release ''c'' pm_two_busy = pm_two_busy"
  using slot_allocator_contract [of 2 pm_one_free "[Acquire ''a'', Acquire ''b'', Release ''a'']" "''c''" "''d''"]
    slot_allocator_contract [of 2 pm_one_free "[Acquire ''a'', Acquire ''b'', Release ''a'']" "''b''" "''d''"]
    slot_allocator_contract [of 2 pm_two_busy "[Acquire ''a'', Acquire ''b'']" "''c''" "''d''"]
  by (simp add: pm_one_free_def pm_two_busy_def pm_run_def new_PositionManager_def
      acquire_def release_def upto.simps)

section \<open>Properties of path names\<close>

lemma str_split_not_Nil [simp]: "str_split s \<noteq> []"
  by (induction s) (auto split: list.splits)

lemma str_split_no_sep: "CHR ''/'' \<notin> set s \<Longrightarrow> str_split s = [s]"
  by (induction s) auto

lemma str_split_append: "str_split (a @ CHR ''/'' # b) = str_split a @ str_split b"
  by (induction a) (auto split: list.splits)

lemma startswith_append: "a \<noteq> [] \<Longrightarrow> startswith (a @ b) ''/'' = startswith a ''/''"
  by (cases a) (auto simp: startswith_def)

lemma plain_not_abs: "plain b \<Longrightarrow> \<not> startswith b ''/''"
  by (cases b) (auto simp: plain_def startswith_def)

lemma plain_tar: "plain s \<Longrightarrow> plain (s @ ''.tar'')"
  by (cases s) (auto simp: plain_def)

lemma os_path_join_not_Nil: "b \<noteq> [] \<Longrightarrow> os_path_join a b \<noteq> []"
  by (simp add: os_path_join_def)

text \<open>Joining a relative name appends its segments.\<close>

lemma segments_join:
  assumes "\<not> startswith b ''/''"
  shows "segments wd (os_path_join a b) = segments wd a @ filter (\<lambda>c. c \<noteq> []) (str_split b)"
proof (cases "a = []")
  case True
  have "\<not> startswith [] ''/''" by (simp add: startswith_def)
  with True assms show ?thesis
    by (simp add: os_path_join_def segments_def str_split_append)
next
  case False
  show ?thesis
  proof (cases "endswith a ''/''")
    case True
    then obtain a' where a': "a = a' @ ''/''" by (auto simp: endswith_def suffix_def)
    have j: "os_path_join a b = a' @ CHR ''/'' # b"
      using True False a' assms by (simp add: os_path_join_def)
    have sw: "startswith (a' @ CHR ''/'' # b) ''/'' = startswith a ''/''"
      unfolding a' by (cases a') (auto simp: startswith_def)
    have assoc: "wd @ CHR ''/'' # a' @ CHR ''/'' # x = (wd @ CHR ''/'' # a') @ CHR ''/'' # x" for x
      by simp
    show ?thesis unfolding j segments_def sw
      by (auto simp: a' str_split_append assoc simp del: append_assoc)
  next
    case nend: False
    have j: "os_path_join a b = a @ CHR ''/'' # b"
      using nend False assms by (simp add: os_path_join_def)
    have sw: "startswith (a @ CHR ''/'' # b) ''/'' = startswith a ''/''"
      using False by (rule startswith_append)
    have assoc: "wd @ CHR ''/'' # a @ CHR ''/'' # x = (wd @ CHR ''/'' # a) @ CHR ''/'' # x" for x
      by simp
    show ?thesis unfolding j segments_def sw
      by (auto simp: str_split_append assoc simp del: append_assoc)
  qed
qed

lemma segments_plain: "plain b \<Longrightarrow> filter (\<lambda>c. c \<noteq> []) (str_split b) = [b]"
  by (simp add: plain_def str_split_no_sep)

lemma step_plain: "plain b \<Longrightarrow> step at b = at @ [b]"
  by (simp add: plain_def step_def)

lemma resolve_join_plain: "plain b \<Longrightarrow> resolve wd (os_path_join a b) = resolve wd a @ [b]"
  by (simp add: resolve_def segments_join plain_not_abs segments_plain step_plain)

section \<open>Properties of the file system operations\<close>

lemma is_file_iff: "is_file fs loc \<longleftrightarrow> (\<exists>c. node_at fs loc = Some (File c))"
  by (auto simp: is_file_def split: option.splits node.splits)

lemma node_at_upd:
  "node_at (fs(loc \<mapsto> n)) p = (if p = [] then Some Dir else if p = loc then Some n else node_at fs p)"
  by (simp add: node_at_def)

lemma butlast_self: "butlast xs = xs \<longleftrightarrow> xs = []"
  by (cases xs rule: rev_cases) auto

subsection \<open>The walk\<close>

lemma locate_from_resolve: "locate_from fs at cs = Inr loc \<Longrightarrow> loc = foldl step at cs"
  by (induction cs arbitrary: at) (auto split: option.splits node.splits)

lemma locate_resolve: "locate wd p fs = Inr loc \<Longrightarrow> loc = resolve wd p"
  by (auto simp: locate_def resolve_def split: if_splits sum.splits option.splits node.splits
      dest: locate_from_resolve)

lemma open_w_resolve: "open_w wd p fs = Inr loc \<Longrightarrow> loc = resolve wd p"
  by (auto simp: open_w_def resolve_def split: if_splits sum.splits option.splits node.splits
      dest: locate_from_resolve)

text \<open>A walk that succeeds still succeeds when directories are added and none is lost.\<close>

lemma locate_from_mono:
  assumes "\<And>q. node_at fs q = Some Dir \<Longrightarrow> node_at fs' q = Some Dir"
    and "locate_from fs at cs = Inr loc"
  shows "locate_from fs' at cs = Inr loc"
  using assms(2)
proof (induction cs arbitrary: at)
  case Nil
  then show ?case by simp
next
  case (Cons c cs)
  from Cons.prems have d: "node_at fs at = Some Dir"
    by (auto split: option.splits node.splits)
  with Cons.prems have "locate_from fs (step at c) cs = Inr loc" by simp
  then have "locate_from fs' (step at c) cs = Inr loc" by (rule Cons.IH)
  with assms(1) [OF d] show ?case by simp
qed

subsection \<open>Creating directories\<close>

lemma mkdirs_keeps:
  "node_at fs p = Some n \<Longrightarrow> node_at (snd (mkdirs_from at cs fs)) p = Some n"
proof (induction cs arbitrary: at fs)
  case Nil
  then show ?case by (cases "node_at fs at") (auto simp: node_at_def split: node.splits)
next
  case (Cons c cs)
  show ?case
  proof (cases "node_at fs at")
    case None
    with Cons.prems have "node_at (fs(at \<mapsto> Dir)) p = Some n"
      by (auto simp: node_at_def)
    then have "node_at (snd (mkdirs_from (step at c) cs (fs(at \<mapsto> Dir)))) p = Some n"
      by (rule Cons.IH)
    with None show ?thesis by simp
  next
    case (Some a)
    have "node_at (snd (mkdirs_from (step at c) cs fs)) p = Some n"
      using Cons.prems by (rule Cons.IH)
    with Some Cons.prems show ?thesis by (cases a) simp_all
  qed
qed

lemma mkdirs_rerun:
  "mkdirs_from at cs fs = (r, fs') \<Longrightarrow> mkdirs_from at cs fs' = (r, fs')"
proof (induction cs arbitrary: at fs)
  case Nil
  then show ?case
    by (cases "node_at fs at") (auto simp: node_at_def split: node.splits if_splits)
next
  case (Cons c cs)
  show ?case
  proof (cases "node_at fs at")
    case None
    with Cons.prems have run: "mkdirs_from (step at c) cs (fs(at \<mapsto> Dir)) = (r, fs')"
      by simp
    from None have "at \<noteq> []" by (auto simp: node_at_def split: if_splits)
    then have "node_at (fs(at \<mapsto> Dir)) at = Some Dir" by (simp add: node_at_def)
    from mkdirs_keeps [OF this, of "step at c" cs] run have "node_at fs' at = Some Dir" by simp
    with Cons.IH [OF run] show ?thesis by simp
  next
    case (Some a)
    show ?thesis
    proof (cases a)
      case (File x)
      with Some Cons.prems show ?thesis by auto
    next
      case Dir
      with Some Cons.prems have run: "mkdirs_from (step at c) cs fs = (r, fs')" by simp
      have "node_at fs at = Some Dir" using Some Dir by simp
      from mkdirs_keeps [OF this, of "step at c" cs] run have "node_at fs' at = Some Dir" by simp
      with Cons.IH [OF run] show ?thesis by simp
    qed
  qed
qed

lemma os_makedirs_rerun:
  "os_makedirs wd p fs = (r, fs1) \<Longrightarrow> os_makedirs wd p fs1 = (r, fs1)"
  by (auto simp: os_makedirs_def mkdirs_rerun split: if_splits)

lemma os_makedirs_keeps:
  "node_at fs p = Some n \<Longrightarrow> node_at (snd (os_makedirs wd q fs)) p = Some n"
  by (simp add: os_makedirs_def mkdirs_keeps)

lemma os_makedirs_is_file:
  "is_file fs p \<Longrightarrow> is_file (snd (os_makedirs wd d fs)) p"
  using os_makedirs_keeps [of fs p _ wd d] by (auto simp: is_file_iff)

subsection \<open>Writing files\<close>

lemma write_file_eq:
  "write_file wd p c fs =
     (case write_check wd p fs of
        Some x \<Rightarrow> (Inl x, fs)
      | None \<Rightarrow> (Inr (), fs(resolve wd p \<mapsto> File c)))"
  by (auto simp: write_file_def write_check_def split: sum.splits dest: open_w_resolve)

lemma open_w_eq:
  "open_w wd p fs = (case write_check wd p fs of Some x \<Rightarrow> Inl x | None \<Rightarrow> Inr (resolve wd p))"
  by (auto simp: write_check_def split: sum.splits dest: open_w_resolve)




section \<open>Properties of the archive processor\<close>

subsection \<open>The loop body in normal form\<close>

text \<open>
  Whatever the decoder answers, an entry that is not skipped has the effect of creating the
  parent directory and writing one file; a failed first attempt leaves the file system as
  the handler's own attempt would find it.
\<close>

lemma raw_copy_eq:
  "raw_copy e mp s fs =
     copy_result (cwd e) mp (src s) (os_makedirs (cwd e) (os_path_dirname mp) fs)"
proof (cases "os_makedirs (cwd e) (os_path_dirname mp) fs")
  case (Pair r fs1)
  show ?thesis
  proof (cases r)
    case (Inl x)
    with Pair show ?thesis by (simp add: raw_copy_def copy_result_def)
  next
    case (Inr u)
    show ?thesis
    proof (cases "write_check (cwd e) mp fs1")
      case None
      with Pair Inr show ?thesis
        by (cases "src s")
          (simp_all add: raw_copy_def copy_result_def open_w_eq stream_read_def stream_seek_def)
    next
      case (Some x)
      with Pair Inr show ?thesis
        by (simp add: raw_copy_def copy_result_def open_w_eq)
    qed
  qed
qed

lemma copy_result_rerun:
  assumes "os_makedirs wd d fs = (r, fs1)" and "r = Inl x \<or> write_check wd mp fs1 \<noteq> None"
  shows "copy_result wd mp content (os_makedirs wd d fs1) = copy_result wd mp content' (r, fs1)"
  using assms os_makedirs_rerun [OF assms(1)] by (cases r) (auto simp: copy_result_def)

lemma extract_member_eq_aux:
  assumes mp: "mp = os_path_join dest (name m)"
    and isf: "isfile m" and chk: "path_check dest mp = Inr True"
  shows "extract_member e dest m fs =
     copy_result (cwd e) mp (map_option (stored e) (payload m))
       (os_makedirs (cwd e) (os_path_dirname mp) fs)"
proof -
  let ?wd = "cwd e"
  let ?s = "\<lparr>src = payload m, offset = 0\<rparr>"
  obtain r fs1 where mk: "os_makedirs ?wd (os_path_dirname mp) fs = (r, fs1)"
    by (cases "os_makedirs ?wd (os_path_dirname mp) fs") auto
  from isf chk have step: "extract_member e dest m fs =
      (case convert_and_save e mp ?s fs of
         (Inr u, s1, fs1) \<Rightarrow> (Inr (), fs1)
       | (Inl x, s1, fs1) \<Rightarrow> raw_copy e mp s1 fs1)"
    unfolding mp by (simp add: extract_member_def extractfile_def Let_def)
  show ?thesis
  proof (cases "payload m")
    case None
    then have "convert_and_save e mp ?s fs = (Inl ReadError, ?s, fs)"
      by (simp add: convert_and_save_def stream_read_def)
    with step None show ?thesis by (simp add: raw_copy_eq)
  next
    case (Some b)
    let ?s1 = "\<lparr>src = Some b, offset = length b\<rparr>"
    show ?thesis
    proof (cases "image_open e b")
      case None
      with Some have "convert_and_save e mp ?s fs = (Inl UnidentifiedImageError, ?s1, fs)"
        by (simp add: convert_and_save_def stream_read_def)
      with step Some None show ?thesis by (simp add: raw_copy_eq stored_def to_jpeg_def)
    next
      case (Some img)
      define jpeg where "jpeg = jpeg_encode e 95 (resize e 256 256 (convert e ''RGB'' img))"
      from Some have st: "stored e b = jpeg" by (simp add: stored_def to_jpeg_def jpeg_def)
      note jp = Some
      show ?thesis
      proof (cases "\<exists>x. r = Inl x")
        case True
        then obtain x where x: "r = Inl x" ..
        with mk \<open>payload m = Some b\<close> jp
        have "convert_and_save e mp ?s fs = (Inl x, ?s1, fs1)"
          by (simp add: convert_and_save_def stream_read_def Let_def)
        with step have "extract_member e dest m fs = raw_copy e mp ?s1 fs1" by simp
        also have "\<dots> = copy_result ?wd mp (Some b) (os_makedirs ?wd (os_path_dirname mp) fs1)"
          by (simp add: raw_copy_eq)
        also have "\<dots> = copy_result ?wd mp (map_option (stored e) (payload m)) (r, fs1)"
          using mk x by (intro copy_result_rerun) auto
        finally show ?thesis using mk by simp
      next
        case False
        then have r: "r = Inr ()" by (cases r) auto
        show ?thesis
        proof (cases "write_check ?wd mp fs1")
          case None
          with mk r \<open>payload m = Some b\<close> jp
          have "convert_and_save e mp ?s fs = (Inr (), ?s1, fs1(resolve ?wd mp \<mapsto> File jpeg))"
            by (simp add: convert_and_save_def stream_read_def write_file_eq Let_def jpeg_def)
          with step mk r None \<open>payload m = Some b\<close> st show ?thesis
            by (simp add: copy_result_def)
        next
          case (Some x)
          with mk r \<open>payload m = Some b\<close> jp
          have "convert_and_save e mp ?s fs = (Inl x, ?s1, fs1)"
            by (simp add: convert_and_save_def stream_read_def write_file_eq Let_def)
          with step have "extract_member e dest m fs = raw_copy e mp ?s1 fs1" by simp
          also have "\<dots> = copy_result ?wd mp (Some b) (os_makedirs ?wd (os_path_dirname mp) fs1)"
            by (simp add: raw_copy_eq)
          also have "\<dots> = copy_result ?wd mp (map_option (stored e) (payload m)) (r, fs1)"
            using mk Some by (intro copy_result_rerun) auto
          finally show ?thesis using mk by simp
        qed
      qed
    qed
  qed
qed

lemma extract_member_eq:
  assumes "extracted_ok dest m"
  shows "extract_member e dest m fs =
     copy_result (cwd e) (dest_path dest m) (map_option (stored e) (payload m))
       (os_makedirs (cwd e) (os_path_dirname (dest_path dest m)) fs)"
  using assms by (intro extract_member_eq_aux) (simp_all add: extracted_ok_def dest_path_def)

lemma extract_member_skip:
  "\<not> extracted_ok dest m \<Longrightarrow> isfile m \<Longrightarrow>
   extract_member e dest m fs =
     (case path_check dest (dest_path dest m) of Inl x \<Rightarrow> (Inl x, fs) | Inr u \<Rightarrow> (Inr (), fs))"
  by (auto simp: extract_member_def extracted_ok_def dest_path_def split: sum.splits bool.splits)

subsection \<open>What one entry changes\<close>


lemma copy_result_is_file:
  assumes "is_file (snd made) p"
  shows "is_file (snd (copy_result wd mp content made)) p"
proof (cases made)
  case (Pair r0 fs1)
  with assms obtain c where c: "node_at fs1 p = Some (File c)"
    by (auto simp: is_file_iff)
  then have "p \<noteq> []" by (auto simp: node_at_def split: if_splits)
  with c Pair show ?thesis unfolding is_file_iff
    by (cases r0; cases "write_check wd mp fs1"; cases content)
      (auto simp: copy_result_def node_at_def)
qed






lemma extract_member_skipped:
  assumes "isfile m" and "\<not> extracted_ok dest m"
  shows "snd (extract_member e dest m fs) = fs"
  using extract_member_skip [OF assms(2) assms(1), of e fs] by (simp split: sum.splits)


lemma extract_member_is_file:
  assumes "isfile m" and "is_file fs p"
  shows "is_file (snd (extract_member e dest m fs)) p"
proof (cases "extracted_ok dest m")
  case False
  with assms show ?thesis by (simp add: extract_member_skipped)
next
  case True
  have "is_file (snd (os_makedirs (cwd e) (os_path_dirname (dest_path dest m)) fs)) p"
    using assms(2) by (rule os_makedirs_is_file)
  then show ?thesis
    unfolding extract_member_eq [OF True] by (rule copy_result_is_file)
qed




subsection \<open>What the loop changes\<close>


lemma extract_members_step:
  "snd (extract_members e dest (m # ms) fs) =
     (case fst (extract_member e dest m fs) of
        Inl x \<Rightarrow> snd (extract_member e dest m fs)
      | Inr u \<Rightarrow> snd (extract_members e dest ms (snd (extract_member e dest m fs))))"
  by (cases "extract_member e dest m fs") (auto split: sum.splits)


lemma extract_members_is_file:
  assumes "list_all isfile ms" and "is_file fs p"
  shows "is_file (snd (extract_members e dest ms fs)) p"
  using assms
proof (induction ms arbitrary: fs)
  case Nil
  then show ?case by simp
next
  case (Cons m ms)
  from Cons.prems have k: "is_file (snd (extract_member e dest m fs)) p"
    by (intro extract_member_is_file) simp_all
  from Cons.prems have "is_file (snd (extract_members e dest ms (snd (extract_member e dest m fs)))) p"
    by (intro Cons.IH k) simp_all
  with k show ?case unfolding extract_members_step by (simp split: sum.splits)
qed



lemma list_all_isfile_filter [simp]: "list_all isfile (filter isfile ms)"
  by (simp add: list_all_iff)

subsection \<open>The whole archive\<close>








subsection \<open>Errors of a single entry\<close>






section \<open>Claims about the archive processor\<close>













text \<open>
  Claim C1 fails on the code. The check of lines 126-127 compares path segments without
  resolving \<open>..\<close>: the entry \<open>../evil.txt\<close> passes it and is written to \<open>/w/out/evil.txt\<close>,
  outside the destination directory \<open>/w/out/n005\<close>. An entry with an absolute name is not
  written, but with a relative destination directory the check itself raises
  \<open>ValueError\<close>, and the extraction stops instead of going on with the next entry.
\<close>

theorem path_escape_is_written:
  "path_check ''out/n005'' (os_path_join ''out/n005'' ''../evil.txt'') = Inr True \<and>
   fst (extract_tar demo_env ''n005'' ''out/n005.tar'' (Some ''out'') (with_tar ''n005'' ''TAR-ESCAPE''))
     = Inr () \<and>
   node_at (snd (extract_tar demo_env ''n005'' ''out/n005.tar'' (Some ''out'') (with_tar ''n005'' ''TAR-ESCAPE'')))
     [''w'', ''out'', ''evil.txt''] = Some (File ''payload'') \<and>
   resolve (cwd demo_env) ''out/n005'' = [''w'', ''out'', ''n005''] \<and>
   \<not> prefix [''w'', ''out'', ''n005''] [''w'', ''out'', ''evil.txt''] \<and>
   path_check ''out/n007'' (os_path_join ''out/n007'' ''/etc/passwd'') = Inl ValueError \<and>
   fst (extract_tar demo_env ''n007'' ''out/n007.tar'' (Some ''out'') (with_tar ''n007'' ''TAR-ABS''))
     = Inl ValueError \<and>
   node_at (snd (extract_tar demo_env ''n007'' ''out/n007.tar'' (Some ''out'') (with_tar ''n007'' ''TAR-ABS'')))
     [''w'', ''out'', ''n007'', ''ok.txt''] = None"
  by code_simp

section \<open>Properties of the item pipeline\<close>

subsection \<open>A marker that exists\<close>

text \<open>A path that can be walked beyond a prefix: creating the prefix changes nothing.\<close>

lemma mkdirs_noop:
  "locate_from fs at (Q @ r) = Inr loc \<Longrightarrow> r \<noteq> [] \<Longrightarrow> mkdirs_from at Q fs = (Inr (), fs)"
proof (induction Q arbitrary: at)
  case Nil
  then obtain c cs where "r = c # cs" by (cases r) auto
  with Nil show ?case by (auto split: option.splits node.splits)
next
  case (Cons a Q)
  then show ?case by (auto split: option.splits node.splits)
qed

lemma segments_marker:
  assumes "\<not> startswith part_id ''/''"
  shows "segments wd (os_path_join (os_path_join base part_id) ''.download_complete'') =
         segments wd base @ (filter (\<lambda>c. c \<noteq> []) (str_split part_id) @ [''.download_complete''])"
proof -
  have a: "\<not> startswith ''.download_complete'' ''/''" by (simp add: startswith_def)
  have b: "filter (\<lambda>c. c \<noteq> []) (str_split ''.download_complete'') = [''.download_complete'']"
    by code_simp
  show ?thesis by (simp add: segments_join [OF a] segments_join [OF assms] b)
qed

lemma marker_makedirs_noop:
  assumes "\<not> startswith part_id ''/''" and "base \<noteq> []"
    and "os_path_exists wd (os_path_join (os_path_join base part_id) ''.download_complete'') fs"
  shows "os_makedirs wd base fs = (Inr (), fs)"
proof -
  let ?r = "filter (\<lambda>c. c \<noteq> []) (str_split part_id) @ [''.download_complete'']"
  from assms(3) obtain loc where
    "locate_from fs [] (segments wd (os_path_join (os_path_join base part_id) ''.download_complete'')) = Inr loc"
    by (auto simp: os_path_exists_def locate_def split: sum.splits if_splits)
  then have "locate_from fs [] (segments wd base @ ?r) = Inr loc"
    by (simp only: segments_marker [OF assms(1)])
  then have "mkdirs_from [] (segments wd base) fs = (Inr (), fs)"
    by (rule mkdirs_noop) simp
  with assms(2) show ?thesis by (simp add: os_makedirs_def)
qed

lemma base_dir_not_Nil: "cwd e \<noteq> [] \<Longrightarrow> base_dir_of e target_path \<noteq> []"
  by (cases target_path) auto

lemma download_tar_skip:
  assumes "cwd e \<noteq> []" and "completed e target_path (files w) part_id"
  shows "download_tar e part_id target_path main_link delete_tar w =
         (Inr \<lparr>res_part_id = part_id, success = True, error = None, skipped = True\<rparr>, w)"
proof -
  from assms(2) have rel: "\<not> startswith part_id ''/''"
    and ex: "os_path_exists (cwd e)
        (os_path_join (os_path_join (base_dir_of e target_path) part_id) ''.download_complete'')
        (files w)"
    by (simp_all add: completed_def completion_marker_of_def extract_dir_of_def)
  from rel base_dir_not_Nil [OF assms(1)] ex
  have "os_makedirs (cwd e) (base_dir_of e target_path) (files w) = (Inr (), files w)"
    by (rule marker_makedirs_noop)
  with ex show ?thesis by (simp add: download_tar_def Let_def)
qed

lemma run_all_skip:
  assumes "cwd e \<noteq> []" and "list_all (completed e target_path (files w)) part_ids"
  shows "run_all e part_ids target_path main_link delete_tar w =
         (map (\<lambda>p. Inr \<lparr>res_part_id = p, success = True, error = None, skipped = True\<rparr>) part_ids, w)"
  using assms(2)
proof (induction part_ids)
  case Nil
  then show ?case by simp
next
  case (Cons p ps)
  then have "completed e target_path (files w) p" by simp
  from download_tar_skip [OF assms(1) this] Cons show ?case by simp
qed

lemma foldl_tally_skipped:
  "foldl tally st (map (\<lambda>p. Inr \<lparr>res_part_id = p, success = True, error = None, skipped = True\<rparr>) ps)
     = st\<lparr>n_skipped := n_skipped st + int (length ps)\<rparr>"
  by (induction ps arbitrary: st) simp_all

subsection \<open>Removal\<close>

lemma locate_node: "locate wd p fs = Inr loc \<Longrightarrow> node_at fs loc \<noteq> None"
  by (auto simp: locate_def split: if_splits sum.splits option.splits node.splits)

lemma exists_gone:
  assumes "fs (resolve wd p) = None" and "resolve wd p \<noteq> []"
  shows "\<not> os_path_exists wd p fs"
proof
  assume "os_path_exists wd p fs"
  then obtain loc where l: "locate wd p fs = Inr loc"
    by (auto simp: os_path_exists_def split: sum.splits)
  from locate_resolve [OF l] locate_node [OF l] assms show False
    by (simp add: node_at_def)
qed

text \<open>Removing nodes makes no path exist.\<close>

lemma exists_antimono:
  assumes "\<And>q. fs' q \<noteq> None \<Longrightarrow> fs' q = fs q" and "os_path_exists wd p fs'"
  shows "os_path_exists wd p fs"
proof -
  have sub: "node_at fs q = Some n" if "node_at fs' q = Some n" for q n
    using that assms(1) [of q] by (auto simp: node_at_def split: if_splits)
  from assms(2) obtain loc where l: "locate wd p fs' = Inr loc"
    by (auto simp: os_path_exists_def split: sum.splits)
  then obtain n where p: "p \<noteq> []"
    and walk: "locate_from fs' [] (segments wd p) = Inr loc"
    and node: "node_at fs' loc = Some n"
    and kind: "n = Dir \<or> \<not> trailing_sep p"
    by (auto simp: locate_def split: if_splits sum.splits option.splits node.splits)
  from walk have "locate_from fs [] (segments wd p) = Inr loc"
    by (rule locate_from_mono [rotated]) (rule sub)
  with p sub [OF node] kind have "locate wd p fs = Inr loc"
    by (cases n) (auto simp: locate_def)
  then show ?thesis by (simp add: os_path_exists_def)
qed

lemma os_remove_only_removes:
  "snd (os_remove wd p fs) q \<noteq> None \<Longrightarrow> snd (os_remove wd p fs) q = fs q"
  by (auto simp: os_remove_def split: sum.splits option.splits node.splits if_splits)

lemma os_remove_ok:
  assumes "os_remove wd p fs = (Inr u, fs1)"
  shows "fs1 = fs(resolve wd p := None)" and "resolve wd p \<noteq> []"
proof -
  from assms obtain loc c where l: "locate wd p fs = Inr loc" and n: "node_at fs loc = Some (File c)"
    and f: "fs1 = fs(loc := None)"
    by (auto simp: os_remove_def split: sum.splits option.splits node.splits)
  from locate_resolve [OF l] f show "fs1 = fs(resolve wd p := None)" by simp
  from locate_resolve [OF l] n show "resolve wd p \<noteq> []" by (auto simp: node_at_def)
qed

lemma rmtree_only_removes:
  "snd (shutil_rmtree wd p fs) q \<noteq> None \<Longrightarrow> snd (shutil_rmtree wd p fs) q = fs q"
  by (auto simp: shutil_rmtree_def Let_def
      split: sum.splits option.splits node.splits if_splits)

text \<open>Whatever \<open>rmtree\<close> answers for a directory, nothing is left below it.\<close>

lemma rmtree_empties:
  assumes "locate wd p fs = Inr loc" and "node_at fs loc = Some Dir" and "strict_prefix loc q"
  shows "snd (shutil_rmtree wd p fs) q = None"
proof -
  let ?fs1 = "\<lambda>q. if strict_prefix loc q then None else fs q"
  show ?thesis
  proof (cases "locate wd p ?fs1")
    case (Inl x)
    with assms show ?thesis by (simp add: shutil_rmtree_def Let_def)
  next
    case (Inr loc1)
    from locate_resolve [OF Inr] locate_resolve [OF assms(1)] have "loc1 = loc" by simp
    with Inr assms show ?thesis by (auto simp: shutil_rmtree_def Let_def)
  qed
qed

lemma rmtree_ok:
  assumes "shutil_rmtree wd p fs = (Inr u, fs1)"
  shows "resolve wd p \<noteq> []" and "prefix (resolve wd p) q \<Longrightarrow> fs1 q = None"
proof -
  from assms obtain loc where l: "locate wd p fs = Inr loc" and n: "node_at fs loc = Some Dir"
    by (auto simp: shutil_rmtree_def Let_def split: sum.splits option.splits node.splits)
  let ?fs1 = "\<lambda>q. if strict_prefix loc q then None else fs q"
  from assms l n obtain loc1 where l1: "locate wd p ?fs1 = Inr loc1" and ne: "loc1 \<noteq> []"
    and f: "fs1 = ?fs1(loc1 := None)"
    by (auto simp: shutil_rmtree_def Let_def split: sum.splits if_splits)
  from locate_resolve [OF l] locate_resolve [OF l1] have eq: "loc = resolve wd p" "loc1 = resolve wd p"
    by simp_all
  from ne eq show "resolve wd p \<noteq> []" by simp
  show "fs1 q = None" if "prefix (resolve wd p) q"
    using that f eq by (auto simp: prefix_order.le_less)
qed

subsection \<open>The cleanup of stale state\<close>

lemma clean_stale_only_removes:
  "snd (clean_stale e d t fs) q \<noteq> None \<Longrightarrow> snd (clean_stale e d t fs) q = fs q"
proof -
  assume a: "snd (clean_stale e d t fs) q \<noteq> None"
  let ?a = "if os_path_exists (cwd e) d fs then shutil_rmtree (cwd e) d fs else (Inr (), fs)"
  have one: "snd ?a q' \<noteq> None \<Longrightarrow> snd ?a q' = fs q'" for q'
    using rmtree_only_removes [of "cwd e" d fs q'] by (simp split: if_splits)
  show ?thesis
  proof (cases "fst ?a")
    case (Inl x)
    then have "clean_stale e d t fs = (Inl x, snd ?a)"
      by (cases ?a) (simp add: clean_stale_def)
    with a one show ?thesis by simp
  next
    case (Inr u)
    then have eq: "clean_stale e d t fs =
        (if os_path_exists (cwd e) t (snd ?a) then os_remove (cwd e) t (snd ?a) else (Inr (), snd ?a))"
      by (cases ?a) (simp add: clean_stale_def)
    show ?thesis
    proof (cases "os_path_exists (cwd e) t (snd ?a)")
      case True
      with eq a have "snd (os_remove (cwd e) t (snd ?a)) q \<noteq> None" by simp
      from this os_remove_only_removes [OF this] one [of q] eq True show ?thesis by simp
    next
      case False
      with eq a one [of q] show ?thesis by simp
    qed
  qed
qed

lemma clean_stale_ok:
  assumes "clean_stale e d t fs = (Inr (), fs1)"
  shows "\<not> os_path_exists (cwd e) d fs1" and "\<not> os_path_exists (cwd e) t fs1"
    and "os_path_exists (cwd e) d fs \<Longrightarrow> prefix (resolve (cwd e) d) q \<Longrightarrow> fs1 q = None"
proof -
  let ?wd = "cwd e"
  let ?a = "if os_path_exists ?wd d fs then shutil_rmtree ?wd d fs else (Inr (), fs)"
  from assms have a: "fst ?a = Inr ()"
    by (cases ?a; cases "fst ?a") (auto simp: clean_stale_def)
  then have a': "?a = (Inr (), snd ?a)" by (cases ?a) simp
  have "clean_stale e d t fs = (case ?a of (Inl err, fsa) \<Rightarrow> (Inl err, fsa)
      | (Inr u, fsa) \<Rightarrow> (if os_path_exists ?wd t fsa then os_remove ?wd t fsa else (Inr (), fsa)))"
    by (simp only: clean_stale_def)
  also have "\<dots> = (if os_path_exists ?wd t (snd ?a) then os_remove ?wd t (snd ?a)
      else (Inr (), snd ?a))"
    by (subst a') simp
  finally have eq: "(if os_path_exists ?wd t (snd ?a) then os_remove ?wd t (snd ?a)
      else (Inr (), snd ?a)) = (Inr (), fs1)"
    using assms by simp
  have less: "fs1 q' = snd ?a q'" if "fs1 q' \<noteq> None" for q'
    using that eq os_remove_only_removes [of ?wd t "snd ?a" q'] by (auto split: if_splits)
  have gone_d: "\<not> os_path_exists ?wd d (snd ?a)"
  proof (cases "os_path_exists ?wd d fs")
    case True
    with a' have r: "shutil_rmtree ?wd d fs = (Inr (), snd (shutil_rmtree ?wd d fs))" by simp
    from rmtree_ok [OF r] True show ?thesis by (intro exists_gone) auto
  next
    case False
    then show ?thesis by simp
  qed
  show "\<not> os_path_exists ?wd d fs1"
    using gone_d exists_antimono [of fs1 "snd ?a" ?wd d] less by blast
  show "\<not> os_path_exists ?wd t fs1"
  proof (cases "os_path_exists ?wd t (snd ?a)")
    case True
    with eq have r: "os_remove ?wd t (snd ?a) = (Inr (), fs1)" by simp
    from os_remove_ok [OF r] show ?thesis by (intro exists_gone) auto
  next
    case False
    with eq show ?thesis by simp
  qed
  show "fs1 q = None" if ex: "os_path_exists ?wd d fs" and pre: "prefix (resolve ?wd d) q"
  proof -
    from ex a' have r: "shutil_rmtree ?wd d fs = (Inr (), snd (shutil_rmtree ?wd d fs))" by simp
    from rmtree_ok(2) [OF r pre] ex have z: "snd ?a q = None" by simp
    show ?thesis
    proof (rule ccontr)
      assume n: "fs1 q \<noteq> None"
      from less [OF n] z n show False by simp
    qed
  qed
qed

subsection \<open>The handler of a failed item\<close>

lemma handler_removes_tar:
  "read_file wd t (if os_path_exists wd t fs then snd (os_remove wd t fs) else fs) \<noteq> Inr c"
proof (cases "locate wd t fs")
  case (Inl x)
  then show ?thesis by (simp add: os_path_exists_def read_file_def)
next
  case (Inr loc)
  then have ex: "os_path_exists wd t fs" by (simp add: os_path_exists_def)
  show ?thesis
  proof (cases "node_at fs loc")
    case None
    with Inr ex show ?thesis by (simp add: os_remove_def read_file_def)
  next
    case (Some n)
    show ?thesis
    proof (cases n)
      case Dir
      with Some Inr ex show ?thesis by (simp add: os_remove_def read_file_def)
    next
      case (File x)
      with Some have ne: "loc \<noteq> []" by (auto simp: node_at_def)
      from File Some Inr have fs': "snd (os_remove wd t fs) = fs(loc := None)"
        by (simp add: os_remove_def)
      have "read_file wd t (fs(loc := None)) \<noteq> Inr c"
      proof (cases "locate wd t (fs(loc := None))")
        case (Inl y)
        then show ?thesis by (simp add: read_file_def)
      next
        case (Inr loc')
        from locate_resolve [OF Inr] locate_resolve [OF \<open>locate wd t fs = Inr loc\<close>]
        have "loc' = loc" by simp
        with Inr ne show ?thesis by (simp add: read_file_def node_at_def)
      qed
      with ex fs' show ?thesis by simp
    qed
  qed
qed

lemma download_tar_fresh:
  assumes "os_makedirs (cwd e) (base_dir_of e target_path) (files w) = (Inr (), fs0)"
    and "\<not> os_path_exists (cwd e) (completion_marker_of e target_path part_id) fs0"
    and "clean_stale e (extract_dir_of e target_path part_id) (tar_path_of e target_path part_id) fs0
           = (Inr (), fs1)"
  shows "download_tar e part_id target_path main_link delete_tar w =
         run_fresh e part_id target_path main_link delete_tar (w\<lparr>files := fs1\<rparr>)"
  using assms
  by (simp add: download_tar_def Let_def completion_marker_of_def extract_dir_of_def tar_path_of_def)

lemma download_tar_unclean:
  assumes "os_makedirs (cwd e) (base_dir_of e target_path) (files w) = (Inr (), fs0)"
    and "\<not> os_path_exists (cwd e) (completion_marker_of e target_path part_id) fs0"
    and "clean_stale e (extract_dir_of e target_path part_id) (tar_path_of e target_path part_id) fs0
           = (Inl err, fs1)"
  shows "download_tar e part_id target_path main_link delete_tar w =
         (fst (on_failure e part_id (log_file_of e target_path) (tar_path_of e target_path part_id) err fs1),
          w\<lparr>files := snd (on_failure e part_id (log_file_of e target_path)
                             (tar_path_of e target_path part_id) err fs1)\<rparr>)"
  using assms
  by (simp add: download_tar_def Let_def completion_marker_of_def extract_dir_of_def tar_path_of_def
      log_file_of_def split: prod.splits)

lemma run_fresh_extraction_fails:
  assumes "http_get e (tar_url_of main_link part_id) = Body b None"
    and "write_file (cwd e) (tar_path_of e target_path part_id) b (files w) = (Inr (), fs2)"
    and "extract_tar e part_id (tar_path_of e target_path part_id) target_path fs2 = (Inl err, fs3)"
    and "append_file (cwd e) (log_file_of e target_path)
           (part_id @ '' - '' @ str_exn err @ [CHR 0x0A]) fs3 = (Inr (), fs4)"
  shows "fst (run_fresh e part_id target_path main_link delete_tar w) =
           Inr \<lparr>res_part_id = part_id, success = False, error = Some (str_exn err), skipped = False\<rparr>"
    and "files (snd (run_fresh e part_id target_path main_link delete_tar w)) =
           (if os_path_exists (cwd e) (tar_path_of e target_path part_id) fs4
            then snd (os_remove (cwd e) (tar_path_of e target_path part_id) fs4) else fs4)"
    and "requests (snd (run_fresh e part_id target_path main_link delete_tar w)) =
           requests w @ [tar_url_of main_link part_id]"
  using assms
  by (simp_all add: run_fresh_def Let_def attempt_def fetch_def extract_and_mark_def on_failure_def
      tar_path_of_def log_file_of_def tar_url_of_def split: prod.splits)

section \<open>Properties of the batch coordinator\<close>








end
